theory Spec2Isabelle
  imports Main "HOL-Library.Word"
begin

section \<open>Text and bytes\<close>

text \<open>
  A Python \<open>str\<close> is a sequence of Unicode code points: \<open>len\<close> and slicing count code
  points, so a string is a list of code-point numbers. A literal of the source is written
  through \<open>lit\<close>. Python \<open>bytes\<close> are lists of 8-bit words.
\<close>

type_synonym codepoint = nat
type_synonym pystr = "codepoint list"
type_synonym bytes = "8 word list"

definition lit :: "string \<Rightarrow> pystr" where
  "lit s = map of_char s"

text \<open>The characters the source names: \<open>_\<close> is U+005F.\<close>

definition underscore :: codepoint where
  "underscore = 95"

text \<open>
  The class \<open>[\s\n\r]\<close> of a \<open>str\<close> pattern: \<open>\s\<close> is Unicode white space (it holds
  \<open>\n\<close> and \<open>\r\<close> already): U+0009..U+000D, U+001C..U+0020, U+0085, U+00A0, U+1680,
  U+2000..U+200A, U+2028, U+2029, U+202F, U+205F, U+3000.
\<close>

definition is_space :: "codepoint \<Rightarrow> bool" where
  "is_space c \<longleftrightarrow>
     (9 \<le> c \<and> c \<le> 13) \<or> (28 \<le> c \<and> c \<le> 32) \<or> c = 133 \<or> c = 160 \<or> c = 5760 \<or>
     (8192 \<le> c \<and> c \<le> 8202) \<or> c = 8232 \<or> c = 8233 \<or> c = 8239 \<or> c = 8287 \<or> c = 12288"

text \<open>
  The class \<open>[\\/*?:"<>|]\<close>: backslash, slash, star, question mark, colon, double quote,
  less-than, greater-than, bar.
\<close>

definition illegal_chars :: "codepoint list" where
  "illegal_chars = [92, 47, 42, 63, 58, 34, 60, 62, 124]"

definition is_illegal :: "codepoint \<Rightarrow> bool" where
  "is_illegal c \<longleftrightarrow> c \<in> set illegal_chars"

section \<open>The two forms of \<open>re.sub\<close> the source uses\<close>

text \<open>
  \<open>re.sub('[cls]+', repl, s)\<close> scans \<open>s\<close> from the left; at a character of the class the
  greedy \<open>+\<close> takes the whole run of class characters that starts there, the replacement is
  emitted once and the scan goes on after the run; any other character is copied.
\<close>

function re_sub_class_plus :: "(codepoint \<Rightarrow> bool) \<Rightarrow> pystr \<Rightarrow> pystr \<Rightarrow> pystr" where
  "re_sub_class_plus cls repl [] = []"
| "re_sub_class_plus cls repl (c # cs) =
     (if cls c then repl @ re_sub_class_plus cls repl (dropWhile cls cs)
      else c # re_sub_class_plus cls repl cs)"
  by pat_completeness auto
termination
  by (relation "measure (\<lambda>(cls, repl, s). length s)")
     (auto simp: less_Suc_eq_le length_dropWhile_le)

text \<open>\<open>re.sub('[cls]', repl, s)\<close>: every single character of the class is replaced.\<close>

fun re_sub_class :: "(codepoint \<Rightarrow> bool) \<Rightarrow> pystr \<Rightarrow> pystr \<Rightarrow> pystr" where
  "re_sub_class cls repl [] = []"
| "re_sub_class cls repl (c # cs) =
     (if cls c then repl @ re_sub_class cls repl cs else c # re_sub_class cls repl cs)"

section \<open>\<open>sanitize_filename\<close>\<close>

definition placeholder :: pystr where
  "placeholder = lit ''untitled_video''"

text \<open>
  The argument is \<open>None\<close> or a string. \<open>not name\<close> holds for \<open>None\<close> and for the empty
  string; \<open>str(name)\<close> is the string itself.
\<close>

definition sanitize_filename :: "pystr option \<Rightarrow> pystr" where
  "sanitize_filename name =
     (case name of
        None \<Rightarrow> placeholder
      | Some s \<Rightarrow>
          if s = [] then placeholder
          else
            let sanitized_name = re_sub_class_plus is_space [underscore] s;
                sanitized_name = re_sub_class is_illegal [] sanitized_name
            in if length sanitized_name > 100 then take 100 sanitized_name @ lit ''..''
               else sanitized_name)"

subsection \<open>The sanitization rule as the specification words it\<close>

text \<open>
  \<open>runs P s\<close> cuts \<open>s\<close> into its maximal blocks of neighbours that agree on \<open>P\<close>.
\<close>

function runs :: "('a \<Rightarrow> bool) \<Rightarrow> 'a list \<Rightarrow> 'a list list" where
  "runs P [] = []"
| "runs P (x # xs) =
     (x # takeWhile (\<lambda>y. P y = P x) xs) # runs P (dropWhile (\<lambda>y. P y = P x) xs)"
  by pat_completeness auto
termination
  by (relation "measure (\<lambda>(P, s). length s)")
     (auto simp: less_Suc_eq_le length_dropWhile_le)

definition collapse_whitespace :: "pystr \<Rightarrow> pystr" where
  "collapse_whitespace s =
     concat (map (\<lambda>r. if is_space (hd r) then [underscore] else r) (runs is_space s))"

definition strip_illegal :: "pystr \<Rightarrow> pystr" where
  "strip_illegal s = filter (\<lambda>c. \<not> is_illegal c) s"

definition truncate_name :: "pystr \<Rightarrow> pystr" where
  "truncate_name s = (if length s > 100 then take 100 s @ lit ''..'' else s)"

definition sanitize_spec :: "pystr option \<Rightarrow> pystr" where
  "sanitize_spec name =
     (if name = None \<or> name = Some [] then placeholder
      else truncate_name (strip_illegal (collapse_whitespace (the name))))"

text \<open>
  The extension of a file name, as the specification's \<open><ext>\<close>: the characters after
  the last dot (U+002E).
\<close>

definition file_ext :: "pystr \<Rightarrow> pystr" where
  "file_ext name = rev (takeWhile (\<lambda>c. c \<noteq> 46) (rev name))"

section \<open>Descriptors\<close>

text \<open>
  A descriptor is the dictionary yt-dlp returns for one video. A text entry of it may be
  missing, may hold \<open>None\<close> or may hold a string; \<open>dict_get\<close> is \<open>d.get(key, default)\<close>,
  whose result is \<open>None\<close> only when the entry holds \<open>None\<close>. Python compares two
  dictionaries by their contents, as HOL compares two records.
\<close>

datatype pyval = Absent | PyNone | PyStr pystr

definition dict_get :: "pyval \<Rightarrow> pystr \<Rightarrow> pystr option" where
  "dict_get entry dflt =
     (case entry of Absent \<Rightarrow> Some dflt | PyNone \<Rightarrow> None | PyStr s \<Rightarrow> Some s)"

record video =
  vid :: pystr
  title :: pyval
  uploader :: pyval
  webpage_url :: "pystr option"
  thumbnail :: pystr
  like_count :: int

text \<open>The exceptions that can end \<open>prepare_zip\<close>.\<close>

datatype error = TypeError | IndexError | LargeZipFile | UnicodeEncodeError | RuntimeError

section \<open>The content fetcher\<close>

text \<open>
  What yt-dlp, the file system and zlib do is outside the program. \<open>respond env n v\<close> is
  what the \<open>n\<close>-th call of \<open>robust_download_to_memory\<close> meets when it downloads \<open>v\<close>: an
  exception, or the files found in the temporary directory afterwards, in \<open>os.listdir\<close>
  order, each with its content. \<open>deflated_size env data\<close> is the number of bytes zlib
  makes of \<open>data\<close>.
\<close>

datatype outcome = Raised | Listed "(pystr \<times> bytes) list"

record env =
  respond :: "nat \<Rightarrow> video \<Rightarrow> outcome"
  deflated_size :: "bytes \<Rightarrow> nat"

text \<open>Python truth of an optional byte string and of an optional string.\<close>

definition truthy_bytes :: "bytes option \<Rightarrow> bool" where
  "truthy_bytes b = (case b of None \<Rightarrow> False | Some d \<Rightarrow> d \<noteq> [])"

definition truthy_str :: "pystr option \<Rightarrow> bool" where
  "truthy_str f = (case f of None \<Rightarrow> False | Some n \<Rightarrow> n \<noteq> [])"

text \<open>The local \<open>final_filename\<close> of \<open>robust_download_to_memory\<close>.\<close>

definition final_filename :: "video \<Rightarrow> pystr" where
  "final_filename video_info =
     sanitize_filename (dict_get (uploader video_info) (lit ''user'')) @ [underscore] @
     sanitize_filename (dict_get (title video_info) (lit ''video'')) @ lit ''.mp4''"

text \<open>
  \<open>robust_download_to_memory\<close> takes the number of calls made so far and returns it
  increased by one. A descriptor without \<open>webpage_url\<close> raises KeyError inside the
  \<open>try\<close>, which the handler turns into \<open>(None, None)\<close>, like any exception of the
  download; an empty directory gives \<open>(None, None)\<close>; otherwise the first file is read.
\<close>

definition robust_download_to_memory ::
  "env \<Rightarrow> nat \<Rightarrow> video \<Rightarrow> (bytes option \<times> pystr option) \<times> nat" where
  "robust_download_to_memory env n video_info =
     (case webpage_url video_info of
        None \<Rightarrow> ((None, None), Suc n)
      | Some url \<Rightarrow>
          (case respond env n video_info of
             Raised \<Rightarrow> ((None, None), Suc n)
           | Listed [] \<Rightarrow> ((None, None), Suc n)
           | Listed ((name, video_bytes) # others) \<Rightarrow>
               ((Some video_bytes, Some (final_filename video_info)), Suc n)))"

section \<open>The archive writer\<close>

text \<open>
  \<open>zipfile.ZipFile(zip_buffer, "a", zipfile.ZIP_DEFLATED, False)\<close> of CPython 3.11: the
  fourth argument is \<open>allowZip64\<close>, so the archive is confined to the limits of the plain
  format. The model keeps what decides the program's course: the entries written
  (\<open>filelist\<close>, each with the name as stored and its data) and the position after the last
  entry (\<open>start_dir\<close>, where the next local header or the central directory goes). The
  system clock is taken to be past 1980 and zlib to be present.
\<close>

definition ZIP64_LIMIT :: nat where
  "ZIP64_LIMIT = 2147483647"

definition ZIP_FILECOUNT_LIMIT :: nat where
  "ZIP_FILECOUNT_LIMIT = 65535"

definition end_record_size :: nat where
  "end_record_size = 22"

text \<open>
  \<open>ZipInfo\<close> ends the name at the first NUL character. The name goes into the headers as
  ASCII or else UTF-8; a surrogate code point (U+D800..U+DFFF) cannot be encoded.
\<close>

definition stored_name :: "pystr \<Rightarrow> pystr" where
  "stored_name filename = takeWhile (\<lambda>c. c \<noteq> 0) filename"

definition is_surrogate :: "codepoint \<Rightarrow> bool" where
  "is_surrogate c \<longleftrightarrow> 55296 \<le> c \<and> c \<le> 57343"

definition utf8_size :: "codepoint \<Rightarrow> nat" where
  "utf8_size c = (if c < 128 then 1 else if c < 2048 then 2 else if c < 65536 then 3 else 4)"

definition name_size :: "pystr \<Rightarrow> nat" where
  "name_size name = sum_list (map utf8_size name)"

record zip_file =
  filelist :: "(pystr \<times> bytes) list"
  start_dir :: nat

text \<open>
  \<open>writestr(filename, data)\<close>, in the order of the library: \<open>zinfo.filename[-1]\<close> raises
  IndexError on an empty name; \<open>_open_to_write\<close> refuses data of which 1.05 times the
  length is beyond the limit; \<open>_writecheck\<close> refuses a 65536th entry, data beyond the limit
  and a header offset beyond the limit; \<open>FileHeader\<close> encodes the name; when the data is
  written the deflated size is checked. A name that is already there only draws a warning.
  An entry takes a local header of 30 bytes, the name and the deflated data.
\<close>

definition writestr :: "env \<Rightarrow> zip_file \<Rightarrow> pystr \<Rightarrow> bytes \<Rightarrow> error + zip_file" where
  "writestr env zf filename data =
     (let name = stored_name filename
      in if name = [] then Inl IndexError
         else if 105 * length data > 100 * ZIP64_LIMIT then Inl LargeZipFile
         else if length (filelist zf) \<ge> ZIP_FILECOUNT_LIMIT then Inl LargeZipFile
         else if length data > ZIP64_LIMIT then Inl LargeZipFile
         else if start_dir zf > ZIP64_LIMIT then Inl LargeZipFile
         else if list_ex is_surrogate name then Inl UnicodeEncodeError
         else if deflated_size env data > ZIP64_LIMIT then Inl RuntimeError
         else Inr \<lparr>filelist = filelist zf @ [(name, data)],
                   start_dir = start_dir zf + 30 + name_size name + deflated_size env data\<rparr>)"

text \<open>
  Closing the archive (\<open>_write_end_record\<close>) writes a central directory record of 46 bytes
  and the name for each entry, refuses a directory that starts or extends beyond the limit,
  and writes the end record of 22 bytes, also when no entry was added (a \<open>ZipFile\<close> opened
  in mode \<open>"a"\<close> on an empty buffer counts as modified). The result is the position of the
  buffer afterwards, what \<open>zip_buffer.tell()\<close> gives after the \<open>with\<close> block and the length
  of \<open>zip_buffer.getvalue()\<close>.
\<close>

definition zip_close :: "zip_file \<Rightarrow> error + nat" where
  "zip_close zf =
     (let centDirSize = sum_list (map (\<lambda>(name, data). 46 + name_size name) (filelist zf))
      in if length (filelist zf) > ZIP_FILECOUNT_LIMIT then Inl LargeZipFile
         else if start_dir zf > ZIP64_LIMIT then Inl LargeZipFile
         else if centDirSize > ZIP64_LIMIT then Inl LargeZipFile
         else Inr (start_dir zf + centDirSize + end_record_size))"

text \<open>The archive bytes kept in the session: the entries and the length in bytes.\<close>

record archive =
  entries :: "(pystr \<times> bytes) list"
  nbytes :: nat

definition truthy_zip :: "archive option \<Rightarrow> bool" where
  "truthy_zip z = (case z of None \<Rightarrow> False | Some a \<Rightarrow> nbytes a > 0)"

section \<open>Session state\<close>

text \<open>
  \<open>st.session_state\<close> with the keys the source uses, the store of \<open>st.cache_data\<close> for
  \<open>get_cached_download_data\<close> (keyed by the argument), and the number of calls of
  \<open>robust_download_to_memory\<close> made so far. \<open>toggles s k\<close> is \<open>st.session_state.get(k)\<close>
  for a video id \<open>k\<close>; video ids are taken to differ from the fixed keys.
\<close>

datatype position = Top | Bottom

record state =
  video_list :: "video list"
  toggles :: "pystr \<Rightarrow> bool option"
  select_all_top :: bool
  select_all_bottom :: bool
  zip_bytes :: "archive option"
  zipped_selection_ids :: "pystr list"
  zip_filename :: "pystr option"
  failed_videos :: "video list"
  download_triggered :: bool
  user_id :: pystr
  download_cache :: "video \<Rightarrow> (bytes option \<times> pystr option) option"
  downloads :: nat


definition invalidate_zip :: "state \<Rightarrow> state" where
  "invalidate_zip s = s\<lparr>zip_bytes := None, zipped_selection_ids := []\<rparr>"

definition toggle_all_selection :: "position \<Rightarrow> state \<Rightarrow> state" where
  "toggle_all_selection position s =
     (let new_state = (case position of Top \<Rightarrow> select_all_top s | Bottom \<Rightarrow> select_all_bottom s)
      in invalidate_zip
           (s\<lparr>toggles := fold (\<lambda>video t. t(vid video \<mapsto> new_state)) (video_list s) (toggles s)\<rparr>))"

text \<open>
  What the widgets do before the script runs again: a toggle flips the entry of its key;
  the select-all checkbox stores its value and then calls \<open>toggle_all_selection\<close>; the
  sidebar button calls \<open>st.cache_data.clear()\<close>.
\<close>

definition user_toggle :: "pystr \<Rightarrow> state \<Rightarrow> state" where
  "user_toggle k s = s\<lparr>toggles := (toggles s)(k \<mapsto> \<not> (toggles s k = Some True))\<rparr>"

definition user_select_all :: "position \<Rightarrow> bool \<Rightarrow> state \<Rightarrow> state" where
  "user_select_all position b s =
     toggle_all_selection position
       (case position of Top \<Rightarrow> s\<lparr>select_all_top := b\<rparr> | Bottom \<Rightarrow> s\<lparr>select_all_bottom := b\<rparr>)"

definition clear_download_cache :: "state \<Rightarrow> state" where
  "clear_download_cache s = s\<lparr>download_cache := (\<lambda>v. None)\<rparr>"

text \<open>\<open>@st.cache_data\<close>: a stored result is returned; otherwise the function runs and its result is stored.\<close>

definition get_cached_download_data ::
  "env \<Rightarrow> video \<Rightarrow> state \<Rightarrow> (bytes option \<times> pystr option) \<times> state" where
  "get_cached_download_data env video_info s =
     (case download_cache s video_info of
        Some r \<Rightarrow> (r, s)
      | None \<Rightarrow>
          (let (r, n) = robust_download_to_memory env (downloads s) video_info
           in (r, s\<lparr>download_cache := (download_cache s)(video_info \<mapsto> r), downloads := n\<rparr>)))"

text \<open>
  The grid of \<open>run_app_3\<close> calls \<open>get_cached_download_data\<close> for each video of the list
  in turn; this is what the loop does to the state.
\<close>

fun prefetch :: "env \<Rightarrow> video list \<Rightarrow> state \<Rightarrow> state" where
  "prefetch env [] s = s"
| "prefetch env (video # rest) s = prefetch env rest (snd (get_cached_download_data env video s))"

section \<open>\<open>prepare_zip\<close>\<close>

text \<open>
  The loop over \<open>selected_videos\<close>, with the archive written so far, the ledger of this
  run and the call counter. \<open>video.get('title', 'video')[:30]\<close> raises TypeError when the
  title holds \<open>None\<close>; the label itself only goes to the progress bar. Nothing in
  \<open>prepare_zip\<close> catches an exception, so the first one ends the loop; the archive as it
  is then is returned beside it, since leaving the \<open>with\<close> block closes it.
\<close>

fun zip_loop ::
  "env \<Rightarrow> video list \<Rightarrow> zip_file \<Rightarrow> video list \<Rightarrow> nat \<Rightarrow>
   zip_file \<times> (error + video list \<times> nat)" where
  "zip_loop env [] zip_file failed_videos_this_run n = (zip_file, Inr (failed_videos_this_run, n))"
| "zip_loop env (video # rest) zip_file failed_videos_this_run n =
     (case dict_get (title video) (lit ''video'') of
        None \<Rightarrow> (zip_file, Inl TypeError)
      | Some t \<Rightarrow>
          (case robust_download_to_memory env n video of
             ((Some video_bytes, Some filename), n') \<Rightarrow>
               if video_bytes \<noteq> [] \<and> filename \<noteq> []
               then (case writestr env zip_file filename video_bytes of
                       Inl e \<Rightarrow> (zip_file, Inl e)
                     | Inr zip_file' \<Rightarrow> zip_loop env rest zip_file' failed_videos_this_run n')
               else zip_loop env rest zip_file (failed_videos_this_run @ [video]) n'
           | (_, n') \<Rightarrow> zip_loop env rest zip_file (failed_videos_this_run @ [video]) n'))"

text \<open>
  \<open>prepare_zip\<close>. The archive is closed when the \<open>with\<close> block is left, also by an
  exception of the loop, and an exception of the closing is the one that leaves the
  function. The session is written only after that, so a run that raises writes nothing.
\<close>

definition prepare_zip :: "env \<Rightarrow> video list \<Rightarrow> pystr \<Rightarrow> state \<Rightarrow> error + state" where
  "prepare_zip env selected_videos uid s =
     (if selected_videos = [] then Inr s
      else
        (case zip_loop env selected_videos \<lparr>filelist = [], start_dir = 0\<rparr> [] (downloads s) of
           (zip_file, r) \<Rightarrow>
             (case zip_close zip_file of
                Inl e \<Rightarrow> Inl e
              | Inr tell \<Rightarrow>
                  (case r of
                     Inl e \<Rightarrow> Inl e
                   | Inr (failed_videos_this_run, n) \<Rightarrow>
                       (let s1 = s\<lparr>failed_videos := failed_videos_this_run, downloads := n\<rparr>
                        in if tell > 0
                           then
                             (let successful_ids =
                                    map vid (filter (\<lambda>v. v \<notin> set failed_videos_this_run) selected_videos)
                              in Inr (s1\<lparr>zip_bytes := Some \<lparr>entries = filelist zip_file, nbytes = tell\<rparr>,
                                         zipped_selection_ids := successful_ids,
                                         zip_filename := Some (lit ''tiktok_download_'' @ uid @ lit ''.zip'')\<rparr>))
                           else Inr (invalidate_zip s1))))))"

section \<open>The page\<close>

definition is_selected :: "state \<Rightarrow> video \<Rightarrow> bool" where
  "is_selected s v \<longleftrightarrow> toggles s (vid v) = Some True"

definition selected_ids :: "state \<Rightarrow> pystr set" where
  "selected_ids s = set (map vid (filter (is_selected s) (video_list s)))"

text \<open>The check that opens \<open>run_app_1\<close> (and \<open>run_app_2\<close> and \<open>run_app_3\<close> alike).\<close>

definition check_zip_selection :: "state \<Rightarrow> state" where
  "check_zip_selection s =
     (if \<not> download_triggered s then
        (if truthy_zip (zip_bytes s) \<and> selected_ids s \<noteq> set (zipped_selection_ids s)
         then invalidate_zip s else s)
      else s)"



section \<open>What one run of the loop meets\<close>

text \<open>
  The outcome of each fetch of a run that starts at call number \<open>n\<close>: the \<open>i\<close>-th
  descriptor is fetched by call \<open>n + i\<close>. A fetch counts as done when both results are
  true in Python's sense, the test \<open>prepare_zip\<close> makes. \<open>fetched_files\<close> are the names
  and contents handed to \<open>writestr\<close>, \<open>archived\<close> the entries they make, \<open>failing\<close> and
  \<open>succeeding\<close> the descriptors on either side.
\<close>

fun run_outcomes :: "env \<Rightarrow> nat \<Rightarrow> video list \<Rightarrow> (video \<times> (bytes option \<times> pystr option)) list" where
  "run_outcomes env n [] = []"
| "run_outcomes env n (v # vs) =
     (v, fst (robust_download_to_memory env n v)) # run_outcomes env (Suc n) vs"

definition fetched :: "video \<times> (bytes option \<times> pystr option) \<Rightarrow> bool" where
  "fetched r = (truthy_bytes (fst (snd r)) \<and> truthy_str (snd (snd r)))"

definition written :: "video \<times> (bytes option \<times> pystr option) \<Rightarrow> (pystr \<times> bytes) list" where
  "written r = (case snd r of (Some video_bytes, Some filename) \<Rightarrow> [(filename, video_bytes)] | _ \<Rightarrow> [])"

definition fetched_files :: "env \<Rightarrow> nat \<Rightarrow> video list \<Rightarrow> (pystr \<times> bytes) list" where
  "fetched_files env n vs = concat (map written (filter fetched (run_outcomes env n vs)))"

definition archived :: "env \<Rightarrow> nat \<Rightarrow> video list \<Rightarrow> (pystr \<times> bytes) list" where
  "archived env n vs = map (\<lambda>(filename, data). (stored_name filename, data)) (fetched_files env n vs)"

definition failing :: "env \<Rightarrow> nat \<Rightarrow> video list \<Rightarrow> video list" where
  "failing env n vs = map fst (filter (\<lambda>r. \<not> fetched r) (run_outcomes env n vs))"

definition succeeding :: "env \<Rightarrow> nat \<Rightarrow> video list \<Rightarrow> video list" where
  "succeeding env n vs = map fst (filter fetched (run_outcomes env n vs))"

text \<open>\<open>write_all\<close> hands a list of files to \<open>writestr\<close>, one after the other.\<close>

fun write_all :: "env \<Rightarrow> zip_file \<Rightarrow> (pystr \<times> bytes) list \<Rightarrow> error + zip_file" where
  "write_all env zf [] = Inr zf"
| "write_all env zf ((filename, data) # rest) =
     (case writestr env zf filename data of Inl e \<Rightarrow> Inl e | Inr zf' \<Rightarrow> write_all env zf' rest)"

text \<open>
  The files a plain archive takes: at most 65535 of them; each with a stored name that is
  not empty and can be encoded, with 1.05 times its length and its deflated size within
  the limit; the entries together, and the central directory, within the limit.
\<close>

definition entry_fits :: "env \<Rightarrow> pystr \<times> bytes \<Rightarrow> bool" where
  "entry_fits env e =
     (stored_name (fst e) \<noteq> [] \<and> \<not> list_ex is_surrogate (stored_name (fst e)) \<and>
      105 * length (snd e) \<le> 100 * ZIP64_LIMIT \<and> deflated_size env (snd e) \<le> ZIP64_LIMIT)"

definition local_size :: "env \<Rightarrow> (pystr \<times> bytes) list \<Rightarrow> nat" where
  "local_size env es =
     sum_list (map (\<lambda>e. 30 + name_size (stored_name (fst e)) + deflated_size env (snd e)) es)"

definition directory_size :: "(pystr \<times> bytes) list \<Rightarrow> nat" where
  "directory_size es = sum_list (map (\<lambda>e. 46 + name_size (stored_name (fst e))) es)"

definition within_limits :: "env \<Rightarrow> (pystr \<times> bytes) list \<Rightarrow> bool" where
  "within_limits env es =
     (length es \<le> ZIP_FILECOUNT_LIMIT \<and> list_all (entry_fits env) es \<and>
      local_size env es \<le> ZIP64_LIMIT \<and> directory_size es \<le> ZIP64_LIMIT)"

text \<open>
  The entry name as the specification words it, for a descriptor and the name of the file
  the download left: sanitized owner, underscore, sanitized title, a dot and that file's
  extension.
\<close>

definition spec_entry_name :: "video \<Rightarrow> pystr \<Rightarrow> pystr" where
  "spec_entry_name v downloaded =
     sanitize_filename (dict_get (uploader v) (lit ''user'')) @ [underscore] @
     sanitize_filename (dict_get (title v) (lit ''video'')) @ [46] @ file_ext downloaded"

section \<open>A concrete session\<close>

text \<open>
  Two descriptors, a fetcher that serves the first (as an audio file, what yt-dlp leaves
  for a slideshow) and raises for the second, and a session in which both are selected.
\<close>

definition video_a :: video where
  "video_a = \<lparr>vid = lit ''1'', title = PyStr (lit ''My Cool Video''),
     uploader = PyStr (lit ''Jane Doe''), webpage_url = Some (lit ''https://t/1''),
     thumbnail = [], like_count = 5\<rparr>"

definition video_b :: video where
  "video_b = \<lparr>vid = lit ''2'', title = PyStr (lit ''B''),
     uploader = PyStr (lit ''Jane Doe''), webpage_url = Some (lit ''https://t/2''),
     thumbnail = [], like_count = 0\<rparr>"

definition demo_env :: env where
  "demo_env = \<lparr>respond = (\<lambda>n v. if vid v = lit ''1'' then Listed [(lit ''1.m4a'', [1, 2, 3])] else Raised),
     deflated_size = (\<lambda>data. length data + 2)\<rparr>"

definition demo_state :: state where
  "demo_state = \<lparr>video_list = [video_a, video_b],
     toggles = [lit ''1'' \<mapsto> True, lit ''2'' \<mapsto> True],
     select_all_top = False, select_all_bottom = False,
     zip_bytes = None, zipped_selection_ids = [], zip_filename = None,
     failed_videos = [], download_triggered = False, user_id = lit ''jane'',
     download_cache = (\<lambda>v. None), downloads = 0\<rparr>"

text \<open>The same session after an earlier run has left an archive of the first video and a ledger.\<close>

definition demo_zipped :: state where
  "demo_zipped = demo_state\<lparr>
     zip_bytes := Some \<lparr>entries = [(lit ''Jane_Doe_My_Cool_Video.mp4'', [1, 2, 3])], nbytes = 155\<rparr>,
     zipped_selection_ids := [lit ''1''],
     zip_filename := Some (lit ''tiktok_download_jane.zip''),
     failed_videos := [video_b],
     toggles := [lit ''1'' \<mapsto> True, lit ''2'' \<mapsto> False],
     downloads := 2\<rparr>"

text \<open>
  A descriptor whose title holds \<open>None\<close>; one whose title holds a NUL character; and a
  fetcher that serves every descriptor a file of 2 GiB.
\<close>

definition video_none :: video where
  "video_none = \<lparr>vid = lit ''3'', title = PyNone,
     uploader = PyStr (lit ''Jane Doe''), webpage_url = Some (lit ''https://t/3''),
     thumbnail = [], like_count = 0\<rparr>"

definition video_nul :: video where
  "video_nul = \<lparr>vid = lit ''1'', title = PyStr [97, 0, 98],
     uploader = PyStr (lit ''Jane''), webpage_url = Some (lit ''https://t/1''),
     thumbnail = [], like_count = 0\<rparr>"

definition big_file :: bytes where
  "big_file = replicate 2147483648 0"

definition big_env :: env where
  "big_env = \<lparr>respond = (\<lambda>n v. Listed [(lit ''1.mp4'', big_file)]),
     deflated_size = (\<lambda>data. length data div 1000 + 2)\<rparr>"

section \<open>Properties of \<open>sanitize_filename\<close>\<close>

lemma re_sub_class_filter: "re_sub_class cls [] s = filter (\<lambda>c. \<not> cls c) s"
  by (induction s) auto

lemma re_sub_class_plus_id: "\<forall>c\<in>set s. \<not> cls c \<Longrightarrow> re_sub_class_plus cls repl s = s"
  by (induction s) auto

lemma dropWhile_same_class: "cls c \<Longrightarrow> dropWhile (\<lambda>y. cls y = cls c) cs = dropWhile cls cs"
  by (induction cs) auto

lemma dropWhile_other_class:
  "\<not> cls c \<Longrightarrow> dropWhile (\<lambda>y. cls y = cls c) cs = dropWhile (\<lambda>y. \<not> cls y) cs"
  by (induction cs) auto

lemma takeWhile_other_class:
  "\<not> cls c \<Longrightarrow> takeWhile (\<lambda>y. cls y = cls c) cs = takeWhile (\<lambda>y. \<not> cls y) cs"
  by (induction cs) auto

lemma re_sub_class_plus_copy:
  "\<not> cls c \<Longrightarrow>
   re_sub_class_plus cls repl (c # cs) =
     (c # takeWhile (\<lambda>y. \<not> cls y) cs) @
     re_sub_class_plus cls repl (dropWhile (\<lambda>y. \<not> cls y) cs)"
  by (induction cs arbitrary: c) auto

text \<open>The blocks of \<open>runs\<close> are a cut of the string into non-empty uniform pieces.\<close>

lemma concat_runs: "concat (runs P s) = s"
  by (induction P s rule: runs.induct) simp_all

lemma runs_nonempty: "r \<in> set (runs P s) \<Longrightarrow> r \<noteq> []"
  by (induction P s rule: runs.induct) auto

lemma runs_uniform: "r \<in> set (runs P s) \<Longrightarrow> y \<in> set r \<Longrightarrow> P y = P (hd r)"
  by (induction P s rule: runs.induct) (auto dest: set_takeWhileD)

lemma re_sub_ws_collapse: "re_sub_class_plus is_space [underscore] s = collapse_whitespace s"
  unfolding collapse_whitespace_def
proof (induction "is_space" s rule: runs.induct)
  case 1
  show ?case by simp
next
  case (2 x xs)
  show ?case
  proof (cases "is_space x")
    case True
    with 2 show ?thesis by (simp add: dropWhile_same_class)
  next
    case False
    with 2 show ?thesis
      by (simp add: re_sub_class_plus_copy[of is_space x]
            dropWhile_other_class[of is_space x] takeWhile_other_class[of is_space x]
          del: re_sub_class_plus.simps)
  qed
qed

lemma illegal_not_space: "is_illegal c \<Longrightarrow> \<not> is_space c"
  by (auto simp: is_illegal_def illegal_chars_def is_space_def)

lemma placeholder_nonempty: "placeholder \<noteq> []"
  by (simp add: placeholder_def lit_def)

text \<open>
  Claim C5. For every input, \<open>sanitize_filename\<close> does what the rule says: an absent or
  empty input gives the placeholder; otherwise each run of white space becomes one
  underscore, then every character of \<open>\ / * ? : " < > |\<close> is dropped, then a result longer
  than 100 characters is cut to its first 100 characters followed by two dots.
\<close>

theorem sanitize_filename_rule: "sanitize_filename name = sanitize_spec name"
  by (cases name)
     (auto simp: sanitize_filename_def sanitize_spec_def truncate_name_def strip_illegal_def
        re_sub_class_filter re_sub_ws_collapse Let_def)

theorem sanitize_filename_rule_witness:
  "sanitize_filename (Some (lit ''Jane Doe'')) = lit ''Jane_Doe'' \<and>
   sanitize_spec (Some (lit ''Jane Doe'')) = lit ''Jane_Doe''"
proof -
  have "sanitize_filename (Some (lit ''Jane Doe'')) = lit ''Jane_Doe''"
    by (simp add: sanitize_filename_def lit_def is_space_def is_illegal_def illegal_chars_def
          underscore_def)
  then show ?thesis
    using sanitize_filename_rule[of "Some (lit ''Jane Doe'')"] by simp
qed

text \<open>
  Claim C10. A non-empty input made only of characters of the stripped set comes out as
  the empty string, not as the placeholder: among such inputs the placeholder is returned
  exactly for the empty one (and for an absent input).
\<close>

theorem sanitize_filename_only_illegal:
  assumes "set s \<subseteq> set illegal_chars"
  shows "(s \<noteq> [] \<longrightarrow> sanitize_filename (Some s) = []) \<and>
         (sanitize_filename (Some s) = placeholder \<longleftrightarrow> s = []) \<and>
         sanitize_filename None = placeholder"
proof -
  have ill: "\<forall>c\<in>set s. is_illegal c"
    using assms by (auto simp: is_illegal_def)
  then have "\<forall>c\<in>set s. \<not> is_space c"
    by (blast dest: illegal_not_space)
  then have ws: "re_sub_class_plus is_space [underscore] s = s"
    by (rule re_sub_class_plus_id)
  have gone: "filter (\<lambda>c. \<not> is_illegal c) s = []"
    using ill by (simp add: filter_empty_conv)
  have "s \<noteq> [] \<Longrightarrow> sanitize_filename (Some s) = []"
    by (simp add: sanitize_filename_def ws re_sub_class_filter gone)
  moreover have "sanitize_filename (Some []) = placeholder" "sanitize_filename None = placeholder"
    by (simp_all add: sanitize_filename_def)
  ultimately show ?thesis
    using placeholder_nonempty by (cases "s = []") auto
qed

theorem sanitize_filename_only_illegal_witness:
  "set [63, 63, 63] \<subseteq> set illegal_chars \<and> sanitize_filename (Some [63, 63, 63]) = [] \<and>
   sanitize_filename (Some [63, 63, 63]) \<noteq> placeholder"
proof -
  have h: "set [63, 63, 63] \<subseteq> set illegal_chars"
    by (simp add: illegal_chars_def)
  show ?thesis
    using h sanitize_filename_only_illegal[OF h] by auto
qed

section \<open>Properties of \<open>prepare_zip\<close>\<close>

text \<open>
  Claim C9. With an empty selection \<open>prepare_zip\<close> returns at once and leaves the whole
  state as it was: archive bytes, recorded ids, archive name and ledger included.
\<close>

theorem prepare_zip_empty: "prepare_zip env [] uid s = Inr s"
  by (simp add: prepare_zip_def)

subsection \<open>The loop and the archive writer\<close>

lemma robust_download_counter: "snd (robust_download_to_memory env n v) = Suc n"
  by (simp add: robust_download_to_memory_def split: option.splits outcome.splits list.splits prod.splits)

lemma write_all_append:
  "write_all env zf (xs @ ys) =
     (case write_all env zf xs of Inl e \<Rightarrow> Inl e | Inr z \<Rightarrow> write_all env z ys)"
  by (induction xs arbitrary: zf) (auto split: sum.splits)

lemma fetched_files_Cons:
  "fetched_files env n (v # vs) = fetched_files env n [v] @ fetched_files env (Suc n) vs"
  by (simp add: fetched_files_def)

lemma failing_Cons: "failing env n (v # vs) = failing env n [v] @ failing env (Suc n) vs"
  by (simp add: failing_def)

lemma succeeding_Cons: "succeeding env n (v # vs) = succeeding env n [v] @ succeeding env (Suc n) vs"
  by (simp add: succeeding_def)

lemma zip_loop_title_none:
  assumes "title v = PyNone"
  shows "zip_loop env (v # vs) zf failed n = (zf, Inl TypeError)"
  using assms by (simp add: dict_get_def)

lemma zip_loop_step:
  assumes "title v \<noteq> PyNone"
  shows "zip_loop env (v # vs) zf failed n =
     (case write_all env zf (fetched_files env n [v]) of
        Inl e \<Rightarrow> (zf, Inl e)
      | Inr zf' \<Rightarrow> zip_loop env vs zf' (failed @ failing env n [v]) (Suc n))"
proof -
  obtain t where t: "dict_get (title v) (lit ''video'') = Some t"
    using assms by (cases "title v") (simp_all add: dict_get_def)
  obtain b f where r: "robust_download_to_memory env n v = ((b, f), Suc n)"
    using robust_download_counter[of env n v]
    by (cases "robust_download_to_memory env n v") auto
  show ?thesis
    by (cases b; cases f)
       (simp_all add: t r fetched_files_def failing_def fetched_def written_def truthy_bytes_def
          truthy_str_def split: sum.splits)
qed

lemma zip_loop_Inr_iff:
  "zip_loop env vs zf failed n = (zf', Inr (fl, n')) \<longleftrightarrow>
     (\<forall>v\<in>set vs. title v \<noteq> PyNone) \<and>
     write_all env zf (fetched_files env n vs) = Inr zf' \<and>
     fl = failed @ failing env n vs \<and> n' = n + length vs"
proof (induction vs arbitrary: zf failed n)
  case Nil
  show ?case by (auto simp: fetched_files_def failing_def)
next
  case (Cons v vs)
  show ?case
  proof (cases "title v = PyNone")
    case True
    then show ?thesis by (simp add: zip_loop_title_none del: zip_loop.simps)
  next
    case False
    show ?thesis
    proof (cases "write_all env zf (fetched_files env n [v])")
      case (Inl e)
      then show ?thesis
        by (simp add: zip_loop_step[OF False] fetched_files_Cons[of env n v vs] write_all_append
              del: zip_loop.simps)
    next
      case (Inr z)
      then show ?thesis
        using False
        by (simp add: zip_loop_step[OF False] fetched_files_Cons[of env n v vs] write_all_append
              failing_Cons[of env n v vs] Cons.IH del: zip_loop.simps)
    qed
  qed
qed

lemma local_size_append: "local_size env (xs @ ys) = local_size env xs + local_size env ys"
  by (simp add: local_size_def)

lemma write_all_Inr_D:
  assumes "write_all env zf es = Inr zf'"
  shows "list_all (entry_fits env) es \<and>
         (es \<noteq> [] \<longrightarrow> length (filelist zf) + length es \<le> ZIP_FILECOUNT_LIMIT) \<and>
         filelist zf' = filelist zf @ map (\<lambda>(filename, data). (stored_name filename, data)) es \<and>
         start_dir zf' = start_dir zf + local_size env es"
  using assms
proof (induction es arbitrary: zf)
  case Nil
  then show ?case by (simp add: local_size_def)
next
  case (Cons e es)
  obtain f d where e: "e = (f, d)" by (cases e)
  from Cons.prems obtain z where w: "writestr env zf f d = Inr z" and r: "write_all env z es = Inr zf'"
    by (auto simp: e split: sum.splits)
  from w have fit: "entry_fits env (f, d)" and cnt: "length (filelist zf) < ZIP_FILECOUNT_LIMIT"
    and z: "z = \<lparr>filelist = filelist zf @ [(stored_name f, d)],
                 start_dir = start_dir zf + 30 + name_size (stored_name f) + deflated_size env d\<rparr>"
    by (auto simp: writestr_def entry_fits_def Let_def split: if_splits)
  from Cons.IH[OF r] show ?case
    using fit cnt by (auto simp: e z local_size_def)
qed

lemma write_all_fits:
  assumes "list_all (entry_fits env) es"
    and "length (filelist zf) + length es \<le> ZIP_FILECOUNT_LIMIT"
    and "start_dir zf + local_size env es \<le> ZIP64_LIMIT"
  shows "write_all env zf es =
     Inr \<lparr>filelist = filelist zf @ map (\<lambda>(filename, data). (stored_name filename, data)) es,
          start_dir = start_dir zf + local_size env es\<rparr>"
  using assms
proof (induction es arbitrary: zf)
  case Nil
  then show ?case by (simp add: local_size_def)
next
  case (Cons e es)
  obtain f d where e: "e = (f, d)" by (cases e)
  let ?z = "\<lparr>filelist = filelist zf @ [(stored_name f, d)],
             start_dir = start_dir zf + 30 + name_size (stored_name f) + deflated_size env d\<rparr>"
  have fit: "entry_fits env (f, d)" and rest: "list_all (entry_fits env) es"
    using Cons.prems(1) by (simp_all add: e)
  have w: "writestr env zf f d = Inr ?z"
    using fit Cons.prems(2,3)
    by (auto simp: writestr_def entry_fits_def Let_def e local_size_def)
  have "write_all env ?z es =
     Inr \<lparr>filelist = filelist ?z @ map (\<lambda>(filename, data). (stored_name filename, data)) es,
          start_dir = start_dir ?z + local_size env es\<rparr>"
    using Cons.prems(2,3) by (intro Cons.IH[OF rest]) (simp_all add: e local_size_def)
  then show ?case
    by (simp add: e w local_size_def)
qed

lemma zip_close_Inr_iff:
  "zip_close zf = Inr t \<longleftrightarrow>
     length (filelist zf) \<le> ZIP_FILECOUNT_LIMIT \<and> start_dir zf \<le> ZIP64_LIMIT \<and>
     sum_list (map (\<lambda>(name, data). 46 + name_size name) (filelist zf)) \<le> ZIP64_LIMIT \<and>
     t = start_dir zf + sum_list (map (\<lambda>(name, data). 46 + name_size name) (filelist zf)) + end_record_size"
  by (auto simp: zip_close_def Let_def)

lemma directory_size_stored:
  "sum_list (map (\<lambda>(name, data). 46 + name_size name)
      (map (\<lambda>(filename, data). (stored_name filename, data)) es)) = directory_size es"
  by (induction es) (auto simp: directory_size_def)

lemma prepare_zip_Inr_iff:
  assumes "selected \<noteq> []"
  shows "prepare_zip env selected uid s = Inr s' \<longleftrightarrow>
     (\<forall>v\<in>set selected. title v \<noteq> PyNone) \<and>
     within_limits env (fetched_files env (downloads s) selected) \<and>
     s' = s\<lparr>failed_videos := failing env (downloads s) selected,
            downloads := downloads s + length selected,
            zip_bytes := Some \<lparr>entries = archived env (downloads s) selected,
                               nbytes = local_size env (fetched_files env (downloads s) selected) +
                                        directory_size (fetched_files env (downloads s) selected) +
                                        end_record_size\<rparr>,
            zipped_selection_ids :=
              map vid (filter (\<lambda>v. v \<notin> set (failing env (downloads s) selected)) selected),
            zip_filename := Some (lit ''tiktok_download_'' @ uid @ lit ''.zip'')\<rparr>"
    (is "?L \<longleftrightarrow> ?T \<and> ?W \<and> ?S")
proof
  let ?n = "downloads s"
  let ?ff = "fetched_files env ?n selected"
  let ?z0 = "\<lparr>filelist = [], start_dir = 0\<rparr>"
  assume ?L
  obtain zf r where loop: "zip_loop env selected ?z0 [] ?n = (zf, r)"
    by (cases "zip_loop env selected ?z0 [] ?n")
  from \<open>?L\<close> assms obtain t fl n' where cl: "zip_close zf = Inr t" and r: "r = Inr (fl, n')"
    by (auto simp: prepare_zip_def loop split: sum.splits)
  from loop r have titles: ?T and w: "write_all env ?z0 ?ff = Inr zf"
    and fl: "fl = failing env ?n selected" and n': "n' = ?n + length selected"
    by (simp_all add: zip_loop_Inr_iff)
  from write_all_Inr_D[OF w] have fits: "list_all (entry_fits env) ?ff"
    and cnt: "?ff \<noteq> [] \<longrightarrow> length ?ff \<le> ZIP_FILECOUNT_LIMIT"
    and fs: "filelist zf = map (\<lambda>(filename, data). (stored_name filename, data)) ?ff"
    and sd: "start_dir zf = local_size env ?ff"
    by simp_all
  note c = cl[unfolded zip_close_Inr_iff fs directory_size_stored]
  from c have lim: "start_dir zf \<le> ZIP64_LIMIT"
    and dir: "directory_size ?ff \<le> ZIP64_LIMIT"
    and t: "t = start_dir zf + directory_size ?ff + end_record_size"
    by blast+
  have ?W
    using fits cnt lim dir by (auto simp: within_limits_def sd)
  moreover have ?S
    using \<open>?L\<close> assms
    by (simp add: prepare_zip_def loop cl r fl n' t sd fs archived_def end_record_size_def Let_def)
  ultimately show "?T \<and> ?W \<and> ?S" using titles by blast
next
  let ?n = "downloads s"
  let ?ff = "fetched_files env ?n selected"
  let ?z0 = "\<lparr>filelist = [], start_dir = 0\<rparr>"
  assume a: "?T \<and> ?W \<and> ?S"
  then have W: "length ?ff \<le> ZIP_FILECOUNT_LIMIT" "list_all (entry_fits env) ?ff"
    "local_size env ?ff \<le> ZIP64_LIMIT" "directory_size ?ff \<le> ZIP64_LIMIT"
    by (simp_all add: within_limits_def)
  let ?zf = "\<lparr>filelist = map (\<lambda>(filename, data). (stored_name filename, data)) ?ff,
              start_dir = local_size env ?ff\<rparr>"
  have w: "write_all env ?z0 ?ff = Inr ?zf"
    using write_all_fits[of env ?ff ?z0] W by simp
  have loop: "zip_loop env selected ?z0 [] ?n = (?zf, Inr (failing env ?n selected, ?n + length selected))"
    using a w by (simp add: zip_loop_Inr_iff)
  have cl: "zip_close ?zf = Inr (local_size env ?ff + directory_size ?ff + end_record_size)"
    unfolding zip_close_Inr_iff zip_file.simps directory_size_stored
    using W by simp
  show ?L
    using a assms
    by (simp add: prepare_zip_def loop cl archived_def end_record_size_def Let_def)
qed

subsection \<open>The descriptors fetched and the descriptors failing\<close>

lemma map_fst_run_outcomes: "map fst (run_outcomes env n vs) = vs"
  by (induction vs arbitrary: n) simp_all

lemma length_run_outcomes: "length (run_outcomes env n vs) = length vs"
  by (induction vs arbitrary: n) simp_all

lemma fetched_written:
  assumes "fetched (v, fst (robust_download_to_memory env n v))"
  shows "\<exists>b. written (v, fst (robust_download_to_memory env n v)) = [(final_filename v, b)]"
  using assms
  by (auto simp: fetched_def written_def robust_download_to_memory_def truthy_bytes_def
        truthy_str_def split: option.splits outcome.splits list.splits)

lemma map_fst_fetched_files:
  "map fst (fetched_files env n vs) = map final_filename (succeeding env n vs)"
proof (induction vs arbitrary: n)
  case Nil
  show ?case by (simp add: fetched_files_def succeeding_def)
next
  case (Cons v vs)
  show ?case
  proof (cases "fetched (v, fst (robust_download_to_memory env n v))")
    case True
    then obtain b where "written (v, fst (robust_download_to_memory env n v)) = [(final_filename v, b)]"
      using fetched_written by blast
    with True Cons.IH[of "Suc n"] show ?thesis
      by (simp add: fetched_files_def succeeding_def)
  next
    case False
    with Cons.IH[of "Suc n"] show ?thesis
      by (simp add: fetched_files_def succeeding_def)
  qed
qed

lemma map_fst_archived:
  "map fst (archived env n vs) = map (\<lambda>v. stored_name (final_filename v)) (succeeding env n vs)"
proof -
  have "map fst (archived env n vs) = map stored_name (map fst (fetched_files env n vs))"
    by (simp add: archived_def case_prod_unfold comp_def)
  then show ?thesis by (simp add: map_fst_fetched_files comp_def)
qed

lemma length_archived: "length (archived env n vs) = length (succeeding env n vs)"
  using map_fst_archived[of env n vs] by (metis length_map)

lemma length_succeeding_failing:
  "length (succeeding env n vs) + length (failing env n vs) = length vs"
  unfolding succeeding_def failing_def length_map
  using sum_length_filter_compl[of fetched "run_outcomes env n vs"]
  by (simp add: length_run_outcomes)

lemma set_failing_subset: "set (failing env n vs) \<subseteq> set vs"
proof -
  have "set (failing env n vs) \<subseteq> set (map fst (run_outcomes env n vs))"
    unfolding failing_def by auto
  then show ?thesis by (simp add: map_fst_run_outcomes)
qed

lemma set_succeeding_subset: "set (succeeding env n vs) \<subseteq> set vs"
proof -
  have "set (succeeding env n vs) \<subseteq> set (map fst (run_outcomes env n vs))"
    unfolding succeeding_def by auto
  then show ?thesis by (simp add: map_fst_run_outcomes)
qed

lemma set_succeeding_failing: "set (succeeding env n vs) \<union> set (failing env n vs) = set vs"
proof -
  have "set (succeeding env n vs) \<union> set (failing env n vs) = set (map fst (run_outcomes env n vs))"
    unfolding succeeding_def failing_def by auto
  then show ?thesis by (simp add: map_fst_run_outcomes)
qed

lemma not_failed_succeeding:
  assumes "distinct vs"
  shows "filter (\<lambda>v. v \<notin> set (failing env n vs)) vs = succeeding env n vs"
  using assms
proof (induction vs arbitrary: n)
  case Nil
  show ?case by (simp add: succeeding_def)
next
  case (Cons v vs)
  have notin: "v \<notin> set vs" and d: "distinct vs" using Cons.prems by simp_all
  have sub: "set (failing env (Suc n) vs) \<subseteq> set vs" by (rule set_failing_subset)
  have tail: "filter (\<lambda>w. w \<notin> set (failing env n (v # vs))) vs = succeeding env (Suc n) vs"
  proof -
    have "filter (\<lambda>w. w \<notin> set (failing env n (v # vs))) vs =
          filter (\<lambda>w. w \<notin> set (failing env (Suc n) vs)) vs"
      using notin by (intro filter_cong) (auto simp: failing_def)
    then show ?thesis using Cons.IH[OF d] by simp
  qed
  show ?case
  proof (cases "fetched (v, fst (robust_download_to_memory env n v))")
    case True
    then have "v \<notin> set (failing env n (v # vs))"
      using sub notin by (auto simp: failing_def)
    with tail True show ?thesis by (simp add: succeeding_def)
  next
    case False
    then have "v \<in> set (failing env n (v # vs))" by (simp add: failing_def)
    with tail False show ?thesis by (simp add: succeeding_def)
  qed
qed

lemma succeeding_failing_disjoint:
  assumes "distinct vs"
  shows "set (succeeding env n vs) \<inter> set (failing env n vs) = {}"
proof -
  have "set (filter (\<lambda>v. v \<notin> set (failing env n vs)) vs) \<inter> set (failing env n vs) = {}"
    by auto
  then show ?thesis by (simp only: not_failed_succeeding[OF assms])
qed

lemma ids_partition:
  assumes "distinct (map vid vs)"
  shows "set (map vid (succeeding env n vs)) \<inter> set (map vid (failing env n vs)) = {}"
    and "set (map vid (succeeding env n vs)) \<union> set (map vid (failing env n vs)) = set (map vid vs)"
proof -
  have d: "distinct vs" and inj: "inj_on vid (set vs)"
    using assms by (simp_all add: distinct_map)
  have "vid ` set (succeeding env n vs) \<inter> vid ` set (failing env n vs) =
        vid ` (set (succeeding env n vs) \<inter> set (failing env n vs))"
    using inj set_succeeding_subset[of env n vs] set_failing_subset[of env n vs]
    by (intro inj_on_image_Int[symmetric, of vid "set vs"]) auto
  then show "set (map vid (succeeding env n vs)) \<inter> set (map vid (failing env n vs)) = {}"
    by (simp add: succeeding_failing_disjoint[OF d])
  have "vid ` set (succeeding env n vs) \<union> vid ` set (failing env n vs) = vid ` set vs"
    by (simp add: image_Un[symmetric] set_succeeding_failing)
  then show "set (map vid (succeeding env n vs)) \<union> set (map vid (failing env n vs)) = set (map vid vs)"
    by simp
qed

lemma all_failing:
  assumes "succeeding env n vs = []"
  shows "failing env n vs = vs"
proof -
  have "filter fetched (run_outcomes env n vs) = []"
    using assms by (simp add: succeeding_def)
  then have "filter (\<lambda>r. \<not> fetched r) (run_outcomes env n vs) = run_outcomes env n vs"
    by (simp add: filter_empty_conv)
  then show ?thesis by (simp add: failing_def map_fst_run_outcomes)
qed

lemma recorded_all_iff:
  "map vid (filter (\<lambda>v. v \<notin> set (failing env n vs)) vs) = map vid vs \<longleftrightarrow> failing env n vs = []"
proof
  assume eq: "map vid (filter (\<lambda>v. v \<notin> set (failing env n vs)) vs) = map vid vs"
  show "failing env n vs = []"
  proof (rule ccontr)
    assume "failing env n vs \<noteq> []"
    then obtain x where x: "x \<in> set (failing env n vs)" by (cases "failing env n vs") auto
    then have "x \<in> set vs" using set_failing_subset by blast
    with x have "length (filter (\<lambda>v. v \<notin> set (failing env n vs)) vs) < length vs"
      by (intro length_filter_less[of x]) auto
    moreover have "length (filter (\<lambda>v. v \<notin> set (failing env n vs)) vs) = length vs"
      using eq by (metis length_map)
    ultimately show False by simp
  qed
next
  assume "failing env n vs = []"
  then show "map vid (filter (\<lambda>v. v \<notin> set (failing env n vs)) vs) = map vid vs"
    by simp
qed

lemma stored_name_id: "0 \<notin> set filename \<Longrightarrow> stored_name filename = filename"
  by (induction filename) (auto simp: stored_name_def)

lemma sanitize_filename_length: "length (sanitize_filename name) \<le> 102"
  by (cases name) (auto simp: sanitize_filename_def placeholder_def lit_def Let_def)

lemma final_filename_length: "length (final_filename v) \<le> 209"
  using sanitize_filename_length[of "dict_get (uploader v) (lit ''user'')"]
    sanitize_filename_length[of "dict_get (title v) (lit ''video'')"]
  by (simp add: final_filename_def lit_def)

subsection \<open>The concrete session, run\<close>

lemmas demo_simps =
  robust_download_to_memory_def demo_env_def video_a_def video_b_def lit_def final_filename_def
  sanitize_filename_def dict_get_def is_space_def is_illegal_def illegal_chars_def underscore_def
  fetched_def truthy_bytes_def truthy_str_def written_def failing_def archived_def succeeding_def
  fetched_files_def stored_name_def demo_state_def

lemmas limit_simps =
  within_limits_def entry_fits_def local_size_def directory_size_def name_size_def utf8_size_def
  is_surrogate_def stored_name_def ZIP64_LIMIT_def ZIP_FILECOUNT_LIMIT_def end_record_size_def

lemma demo_failing: "failing demo_env 0 [video_a, video_b] = [video_b]"
  by (simp add: demo_simps)

lemma demo_fetched_files:
  "fetched_files demo_env 0 [video_a, video_b] = [(lit ''Jane_Doe_My_Cool_Video.mp4'', [1, 2, 3])]"
  by (simp add: demo_simps)

lemma demo_archived:
  "archived demo_env 0 [video_a, video_b] = [(lit ''Jane_Doe_My_Cool_Video.mp4'', [1, 2, 3])]"
  by (simp add: demo_simps)

lemma demo_succeeding: "succeeding demo_env 0 [video_a, video_b] = [video_a]"
  by (simp add: demo_simps)

lemma demo_wf: "\<forall>v\<in>set [video_a, video_b]. title v \<noteq> PyNone"
  by (simp add: video_a_def video_b_def)

lemma demo_distinct: "distinct (map vid [video_a, video_b])"
  by (simp add: video_a_def video_b_def lit_def)

lemma demo_neq: "video_a \<noteq> video_b"
  by (simp add: video_a_def video_b_def lit_def)

lemma demo_within: "within_limits demo_env (fetched_files demo_env 0 [video_a, video_b])"
  unfolding demo_fetched_files
  by (simp add: limit_simps lit_def demo_env_def)

lemma demo_prepare:
  "prepare_zip demo_env [video_a, video_b] (lit ''jane'') demo_state =
     Inr (demo_state\<lparr>failed_videos := [video_b], downloads := 2,
            zip_bytes := Some \<lparr>entries = [(lit ''Jane_Doe_My_Cool_Video.mp4'', [1, 2, 3])], nbytes = 155\<rparr>,
            zipped_selection_ids := [lit ''1''],
            zip_filename := Some (lit ''tiktok_download_jane.zip'')\<rparr>)"
proof -
  have d: "downloads demo_state = 0" by (simp add: demo_state_def)
  have ne: "[video_a, video_b] \<noteq> []" by simp
  have i: "vid video_a = lit ''1''" by (simp add: video_a_def)
  have sz: "local_size demo_env [(lit ''Jane_Doe_My_Cool_Video.mp4'', [1, 2, 3])] +
            directory_size [(lit ''Jane_Doe_My_Cool_Video.mp4'', [1, 2, 3])] + end_record_size = 155"
    by (simp add: limit_simps lit_def demo_env_def)
  show ?thesis
    unfolding prepare_zip_Inr_iff[OF ne] d demo_failing demo_archived
    using demo_wf demo_within demo_neq
    by (simp add: demo_fetched_files sz i) (simp add: lit_def)
qed

lemma big_file_length: "length big_file = 2147483648"
  unfolding big_file_def by (simp only: length_replicate)

lemma big_file_nonempty: "big_file \<noteq> []"
  using big_file_length by auto

lemma big_fetched_files:
  "fetched_files big_env 0 [video_a] = [(lit ''Jane_Doe_My_Cool_Video.mp4'', big_file)]"
  using big_file_nonempty
  by (simp add: fetched_files_def fetched_def written_def truthy_bytes_def truthy_str_def
        robust_download_to_memory_def big_env_def video_a_def final_filename_def
        sanitize_filename_def dict_get_def is_space_def is_illegal_def illegal_chars_def
        underscore_def lit_def)

lemma big_raises: "prepare_zip big_env [video_a] (lit ''jane'') demo_state = Inl LargeZipFile"
proof -
  have d: "downloads demo_state = 0" by (simp add: demo_state_def)
  have w: "write_all big_env \<lparr>filelist = [], start_dir = 0\<rparr> (fetched_files big_env 0 [video_a]) =
             Inl LargeZipFile"
    unfolding big_fetched_files
    by (simp add: writestr_def stored_name_def lit_def big_file_length ZIP64_LIMIT_def)
  have t: "title video_a \<noteq> PyNone" by (simp add: video_a_def)
  have loop: "zip_loop big_env [video_a] \<lparr>filelist = [], start_dir = 0\<rparr> [] 0 =
      (\<lparr>filelist = [], start_dir = 0\<rparr>, Inl LargeZipFile)"
    unfolding zip_loop_step[OF t] w by simp
  show ?thesis
    by (simp add: prepare_zip_def d loop zip_close_def ZIP_FILECOUNT_LIMIT_def ZIP64_LIMIT_def
          del: zip_loop.simps)
qed

lemma none_raises:
  "prepare_zip demo_env [video_a, video_none] (lit ''jane'') demo_state = Inl TypeError"
proof -
  have d: "downloads demo_state = 0" by (simp add: demo_state_def)
  have t: "title video_a \<noteq> PyNone" and tn: "title video_none = PyNone"
    by (simp_all add: video_a_def video_none_def)
  have ff: "fetched_files demo_env 0 [video_a] = [(lit ''Jane_Doe_My_Cool_Video.mp4'', [1, 2, 3])]"
    by (simp add: demo_simps)
  have w: "write_all demo_env \<lparr>filelist = [], start_dir = 0\<rparr> (fetched_files demo_env 0 [video_a]) =
      Inr \<lparr>filelist = [(lit ''Jane_Doe_My_Cool_Video.mp4'', [1, 2, 3])], start_dir = 61\<rparr>"
    unfolding ff
    by (simp add: writestr_def limit_simps lit_def demo_env_def)
  have loop: "zip_loop demo_env [video_a, video_none] \<lparr>filelist = [], start_dir = 0\<rparr> [] 0 =
      (\<lparr>filelist = [(lit ''Jane_Doe_My_Cool_Video.mp4'', [1, 2, 3])], start_dir = 61\<rparr>, Inl TypeError)"
    unfolding zip_loop_step[OF t] w by (simp add: zip_loop_title_none[OF tn] del: zip_loop.simps)
  show ?thesis
    by (simp add: prepare_zip_def d loop zip_close_def limit_simps lit_def del: zip_loop.simps)
qed

lemma nul_prepare:
  "prepare_zip demo_env [video_nul] (lit ''jane'') demo_state =
     Inr (demo_state\<lparr>failed_videos := [], downloads := 1,
            zip_bytes := Some \<lparr>entries = [(lit ''Jane_a'', [1, 2, 3])], nbytes = 115\<rparr>,
            zipped_selection_ids := [lit ''1''],
            zip_filename := Some (lit ''tiktok_download_jane.zip'')\<rparr>)"
proof -
  have d: "downloads demo_state = 0" by (simp add: demo_state_def)
  have ne: "[video_nul] \<noteq> []" by simp
  have ff: "fetched_files demo_env 0 [video_nul] = [(lit ''Jane_a'' @ [0] @ lit ''b.mp4'', [1, 2, 3])]"
    by (simp add: demo_simps video_nul_def)
  have f: "failing demo_env 0 [video_nul] = []"
    by (simp add: demo_simps video_nul_def)
  have a: "archived demo_env 0 [video_nul] = [(lit ''Jane_a'', [1, 2, 3])]"
    unfolding archived_def ff by (simp add: stored_name_def lit_def)
  have w: "within_limits demo_env (fetched_files demo_env 0 [video_nul])"
    unfolding ff by (simp add: limit_simps lit_def demo_env_def)
  have sz: "local_size demo_env (fetched_files demo_env 0 [video_nul]) +
            directory_size (fetched_files demo_env 0 [video_nul]) + end_record_size = 115"
    unfolding ff by (simp add: limit_simps lit_def demo_env_def)
  have t: "\<forall>v\<in>set [video_nul]. title v \<noteq> PyNone" by (simp add: video_nul_def)
  show ?thesis
    unfolding prepare_zip_Inr_iff[OF ne] d f a sz
    using t w by (simp add: video_nul_def lit_def)
qed

subsection \<open>What a run of \<open>prepare_zip\<close> guarantees\<close>

lemma prepare_zip_returns:
  assumes "selected \<noteq> []" and "\<forall>v\<in>set selected. title v \<noteq> PyNone"
    and "within_limits env (fetched_files env (downloads s) selected)"
  shows "\<exists>s'. prepare_zip env selected uid s = Inr s'"
  using assms by (simp add: prepare_zip_Inr_iff)

text \<open>
  Claim C3, as stated, fails. A selection of two descriptors with distinct ids, the second
  with a title that holds \<open>None\<close>, ends with TypeError; a selection whose only fetch
  succeeds, with a file of 2 GiB, ends with LargeZipFile. In both the run ends early: no
  ledger is set and no archive is stored.
\<close>

theorem prepare_zip_ends_early_counterexample:
  "distinct (map vid [video_a, video_none]) \<and>
   prepare_zip demo_env [video_a, video_none] (lit ''jane'') demo_state = Inl TypeError \<and>
   failing big_env 0 [video_a] = [] \<and>
   prepare_zip big_env [video_a] (lit ''jane'') demo_state = Inl LargeZipFile"
proof -
  have "distinct (map vid [video_a, video_none])"
    by (simp add: video_a_def video_none_def lit_def)
  moreover have "failing big_env 0 [video_a] = []"
    using big_file_nonempty
    by (simp add: failing_def fetched_def truthy_bytes_def truthy_str_def
          robust_download_to_memory_def big_env_def video_a_def final_filename_def lit_def)
  ultimately show ?thesis
    by (simp add: none_raises big_raises)
qed

text \<open>
  Claim C3, amended. For a non-empty selection of \<open>N\<close> descriptors with distinct ids: the
  run of \<open>prepare_zip\<close> completes when every title is a string and the files fetched are
  within the limits of a plain archive; and whenever it completes, all \<open>N\<close> were fetched
  (the call counter grew by \<open>N\<close>), the ledger is exactly the \<open>K\<close> failing descriptors
  whatever it held before, the archive, when \<open>N - K > 0\<close>, has exactly \<open>N - K\<close> entries,
  one for each descriptor fetched, and the ids recorded for the archive and the ids of the
  ledger are disjoint and together are the ids of the selection.
\<close>

theorem prepare_zip_partial_failure:
  assumes "selected \<noteq> []" and "distinct (map vid selected)"
  shows "((\<forall>v\<in>set selected. title v \<noteq> PyNone) \<and>
          within_limits env (fetched_files env (downloads s) selected) \<longrightarrow>
            (\<exists>s'. prepare_zip env selected uid s = Inr s')) \<and>
         (\<forall>s'. prepare_zip env selected uid s = Inr s' \<longrightarrow>
            downloads s' = downloads s + length selected \<and>
            failed_videos s' = failing env (downloads s) selected \<and>
            (length (failing env (downloads s) selected) < length selected \<longrightarrow>
               (\<exists>a. zip_bytes s' = Some a \<and>
                  length (entries a) = length selected - length (failing env (downloads s) selected) \<and>
                  entries a = archived env (downloads s) selected \<and>
                  map fst (entries a) =
                    map (\<lambda>v. stored_name (final_filename v)) (succeeding env (downloads s) selected))) \<and>
            zipped_selection_ids s' = map vid (succeeding env (downloads s) selected) \<and>
            set (zipped_selection_ids s') \<inter> set (map vid (failed_videos s')) = {} \<and>
            set (zipped_selection_ids s') \<union> set (map vid (failed_videos s')) = set (map vid selected))"
proof -
  let ?n = "downloads s"
  have d: "distinct selected" using assms(2) by (simp add: distinct_map)
  have len: "length (archived env ?n selected) = length selected - length (failing env ?n selected)"
    using length_succeeding_failing[of env ?n selected] by (simp add: length_archived)
  have "\<exists>s'. prepare_zip env selected uid s = Inr s'"
    if "(\<forall>v\<in>set selected. title v \<noteq> PyNone) \<and>
        within_limits env (fetched_files env ?n selected)"
    using that prepare_zip_returns[OF assms(1)] by blast
  moreover have "downloads s' = downloads s + length selected \<and>
            failed_videos s' = failing env ?n selected \<and>
            (length (failing env ?n selected) < length selected \<longrightarrow>
               (\<exists>a. zip_bytes s' = Some a \<and>
                  length (entries a) = length selected - length (failing env ?n selected) \<and>
                  entries a = archived env ?n selected \<and>
                  map fst (entries a) =
                    map (\<lambda>v. stored_name (final_filename v)) (succeeding env ?n selected))) \<and>
            zipped_selection_ids s' = map vid (succeeding env ?n selected) \<and>
            set (zipped_selection_ids s') \<inter> set (map vid (failed_videos s')) = {} \<and>
            set (zipped_selection_ids s') \<union> set (map vid (failed_videos s')) = set (map vid selected)"
    if "prepare_zip env selected uid s = Inr s'" for s'
    using that[unfolded prepare_zip_Inr_iff[OF assms(1)]] ids_partition[OF assms(2), of env ?n] len
    by (simp add: not_failed_succeeding[OF d] map_fst_archived)
  ultimately show ?thesis by blast
qed

theorem prepare_zip_partial_failure_witness:
  "[video_a, video_b] \<noteq> [] \<and> distinct (map vid [video_a, video_b]) \<and>
   title video_a \<noteq> PyNone \<and> title video_b \<noteq> PyNone \<and>
   within_limits demo_env (fetched_files demo_env (downloads demo_state) [video_a, video_b]) \<and>
   \<not> isl (prepare_zip demo_env [video_a, video_b] (lit ''jane'') demo_state) \<and>
   failing demo_env 0 [video_a, video_b] = [video_b] \<and>
   failed_videos (projr (prepare_zip demo_env [video_a, video_b] (lit ''jane'') demo_state)) = [video_b] \<and>
   map fst (entries (the (zip_bytes (projr (prepare_zip demo_env [video_a, video_b] (lit ''jane'') demo_state)))))
     = [stored_name (final_filename video_a)] \<and>
   zipped_selection_ids (projr (prepare_zip demo_env [video_a, video_b] (lit ''jane'') demo_state)) = [vid video_a]"
proof -
  have ne: "[video_a, video_b] \<noteq> []" by simp
  have d0: "downloads demo_state = 0" by (simp add: demo_state_def)
  note t = prepare_zip_partial_failure[OF ne demo_distinct, of demo_env demo_state "lit ''jane''",
      unfolded d0]
  from t demo_wf demo_within obtain s' where
    p: "prepare_zip demo_env [video_a, video_b] (lit ''jane'') demo_state = Inr s'"
    by blast
  from t p have f: "failed_videos s' = failing demo_env 0 [video_a, video_b]"
    and a: "length (failing demo_env 0 [video_a, video_b]) < length [video_a, video_b] \<longrightarrow>
         (\<exists>a. zip_bytes s' = Some a \<and>
            map fst (entries a) =
              map (\<lambda>v. stored_name (final_filename v)) (succeeding demo_env 0 [video_a, video_b]))"
    and z: "zipped_selection_ids s' = map vid (succeeding demo_env 0 [video_a, video_b])"
    by blast+
  from a obtain a' where "zip_bytes s' = Some a'"
    "map fst (entries a') = [stored_name (final_filename video_a)]"
    by (auto simp: demo_failing demo_succeeding)
  then show ?thesis
    using demo_distinct demo_wf demo_within
    by (simp add: p f z d0 demo_failing demo_succeeding)
qed

text \<open>
  Claim C2, as stated, fails: with one of two selected descriptors failing, an archive is
  stored and the recorded ids are those of the first descriptor only, not of the whole
  selection.
\<close>

theorem prepare_zip_records_all_counterexample:
  "\<not> isl (prepare_zip demo_env [video_a, video_b] (lit ''jane'') demo_state) \<and>
   zip_bytes (projr (prepare_zip demo_env [video_a, video_b] (lit ''jane'') demo_state)) \<noteq> None \<and>
   set (zipped_selection_ids (projr (prepare_zip demo_env [video_a, video_b] (lit ''jane'') demo_state)))
     \<noteq> set (map vid [video_a, video_b])"
  unfolding demo_prepare
  by (simp add: video_a_def video_b_def lit_def)

text \<open>
  Claim C2, amended. For a non-empty selection the run completes when every title is a
  string and the files fetched are within the limits of a plain archive; whenever it
  completes, the ledger holds exactly the descriptors whose fetch failed, and, an archive
  being stored, the recorded ids are the ids of the selected descriptors that are not in
  that ledger, in selection order: they are the ids of the whole selection exactly when no
  fetch failed.
\<close>

theorem prepare_zip_records_successful_ids:
  assumes "selected \<noteq> []"
  shows "((\<forall>v\<in>set selected. title v \<noteq> PyNone) \<and>
          within_limits env (fetched_files env (downloads s) selected) \<longrightarrow>
            (\<exists>s'. prepare_zip env selected uid s = Inr s')) \<and>
         (\<forall>s'. prepare_zip env selected uid s = Inr s' \<longrightarrow>
            failed_videos s' = failing env (downloads s) selected \<and>
            (zip_bytes s' \<noteq> None \<longrightarrow>
               zipped_selection_ids s' =
                 map vid (filter (\<lambda>v. v \<notin> set (failing env (downloads s) selected)) selected) \<and>
               (zipped_selection_ids s' = map vid selected \<longleftrightarrow>
                  failing env (downloads s) selected = [])))"
proof -
  have "\<exists>s'. prepare_zip env selected uid s = Inr s'"
    if "(\<forall>v\<in>set selected. title v \<noteq> PyNone) \<and>
        within_limits env (fetched_files env (downloads s) selected)"
    using that prepare_zip_returns[OF assms] by blast
  moreover have "failed_videos s' = failing env (downloads s) selected \<and>
            (zip_bytes s' \<noteq> None \<longrightarrow>
               zipped_selection_ids s' =
                 map vid (filter (\<lambda>v. v \<notin> set (failing env (downloads s) selected)) selected) \<and>
               (zipped_selection_ids s' = map vid selected \<longleftrightarrow>
                  failing env (downloads s) selected = []))"
    if "prepare_zip env selected uid s = Inr s'" for s'
    using that[unfolded prepare_zip_Inr_iff[OF assms]]
    by (simp add: recorded_all_iff)
  ultimately show ?thesis by blast
qed

theorem prepare_zip_records_successful_ids_witness:
  "[video_a, video_b] \<noteq> [] \<and>
   title video_a \<noteq> PyNone \<and> title video_b \<noteq> PyNone \<and>
   within_limits demo_env (fetched_files demo_env (downloads demo_state) [video_a, video_b]) \<and>
   \<not> isl (prepare_zip demo_env [video_a, video_b] (lit ''jane'') demo_state) \<and>
   zip_bytes (projr (prepare_zip demo_env [video_a, video_b] (lit ''jane'') demo_state)) \<noteq> None \<and>
   failed_videos (projr (prepare_zip demo_env [video_a, video_b] (lit ''jane'') demo_state)) = [video_b] \<and>
   zipped_selection_ids (projr (prepare_zip demo_env [video_a, video_b] (lit ''jane'') demo_state)) = [vid video_a]"
proof -
  have ne: "[video_a, video_b] \<noteq> []" by simp
  have d0: "downloads demo_state = 0" by (simp add: demo_state_def)
  note t = prepare_zip_records_successful_ids[OF ne, of demo_env demo_state "lit ''jane''",
      unfolded d0]
  from t demo_wf demo_within obtain s' where
    p: "prepare_zip demo_env [video_a, video_b] (lit ''jane'') demo_state = Inr s'"
    by blast
  have s': "s' = projr (prepare_zip demo_env [video_a, video_b] (lit ''jane'') demo_state)"
    by (simp add: p)
  have b: "zip_bytes s' \<noteq> None"
    unfolding s' by (simp add: demo_prepare)
  from t p b have f: "failed_videos s' = failing demo_env 0 [video_a, video_b]"
    and z: "zipped_selection_ids s' =
         map vid (filter (\<lambda>v. v \<notin> set (failing demo_env 0 [video_a, video_b])) [video_a, video_b])"
    by blast+
  show ?thesis
    using b demo_neq demo_wf demo_within
    by (simp add: p f z d0 demo_failing)
qed

text \<open>
  Claim C8, as stated, fails. The download leaves a file \<open>1.m4a\<close>, and the entry is named
  with the extension \<open>mp4\<close>, not with the extension of the file. A title with a NUL
  character gives the name \<open>Jane_a<NUL>b.mp4\<close>, and the entry is named \<open>Jane_a\<close>. And an
  item fetched with 2 GiB of data becomes no entry: the run ends with LargeZipFile.
\<close>

theorem entry_extension_counterexample:
  "respond demo_env 0 video_a = Listed [(lit ''1.m4a'', [1, 2, 3])] \<and>
   spec_entry_name video_a (lit ''1.m4a'') = lit ''Jane_Doe_My_Cool_Video.m4a'' \<and>
   map fst (entries (the (zip_bytes (projr (prepare_zip demo_env [video_a, video_b] (lit ''jane'') demo_state)))))
     = [lit ''Jane_Doe_My_Cool_Video.mp4''] \<and>
   map fst (entries (the (zip_bytes (projr (prepare_zip demo_env [video_a, video_b] (lit ''jane'') demo_state)))))
     \<noteq> [spec_entry_name video_a (lit ''1.m4a'')] \<and>
   final_filename video_nul = lit ''Jane_a'' @ [0] @ lit ''b.mp4'' \<and>
   map fst (entries (the (zip_bytes (projr (prepare_zip demo_env [video_nul] (lit ''jane'') demo_state)))))
     = [lit ''Jane_a''] \<and>
   succeeding big_env 0 [video_a] = [video_a] \<and>
   prepare_zip big_env [video_a] (lit ''jane'') demo_state = Inl LargeZipFile"
proof -
  have "succeeding big_env 0 [video_a] = [video_a]"
    using big_file_nonempty
    by (simp add: succeeding_def fetched_def truthy_bytes_def truthy_str_def
          robust_download_to_memory_def big_env_def video_a_def final_filename_def lit_def)
  moreover have "final_filename video_nul = lit ''Jane_a'' @ [0] @ lit ''b.mp4''"
    by (simp add: demo_simps video_nul_def)
  ultimately show ?thesis
    unfolding demo_prepare nul_prepare big_raises
    by (simp add: spec_entry_name_def file_ext_def demo_simps)
qed

text \<open>
  Claim C8, amended. For a non-empty selection the run completes when every title is a
  string and the files fetched are within the limits of a plain archive; whenever it
  completes and stores an archive, its entries are, in order, one for each descriptor
  fetched, named sanitized owner, underscore, sanitized title and the fixed extension
  \<open>.mp4\<close>, the name ending before its first NUL character if it has one, where owner and
  title are the \<open>uploader\<close> and \<open>title\<close> entries (\<open>user\<close> and \<open>video\<close> when the entry is
  missing) passed through \<open>sanitize_filename\<close>; and the archive is named
  \<open>tiktok_download_<user id>.zip\<close>.
\<close>

theorem prepare_zip_entry_names:
  assumes "selected \<noteq> []"
  shows "((\<forall>v\<in>set selected. title v \<noteq> PyNone) \<and>
          within_limits env (fetched_files env (downloads s) selected) \<longrightarrow>
            (\<exists>s'. prepare_zip env selected uid s = Inr s')) \<and>
         (\<forall>s' a. prepare_zip env selected uid s = Inr s' \<and> zip_bytes s' = Some a \<longrightarrow>
            map fst (entries a) =
              map (\<lambda>v. stored_name
                         (sanitize_filename (dict_get (uploader v) (lit ''user'')) @ [underscore] @
                          sanitize_filename (dict_get (title v) (lit ''video'')) @ lit ''.mp4''))
                (succeeding env (downloads s) selected) \<and>
            zip_filename s' = Some (lit ''tiktok_download_'' @ uid @ lit ''.zip''))"
proof -
  have "\<exists>s'. prepare_zip env selected uid s = Inr s'"
    if "(\<forall>v\<in>set selected. title v \<noteq> PyNone) \<and>
        within_limits env (fetched_files env (downloads s) selected)"
    using that prepare_zip_returns[OF assms] by blast
  moreover have "map fst (entries a) =
              map (\<lambda>v. stored_name
                         (sanitize_filename (dict_get (uploader v) (lit ''user'')) @ [underscore] @
                          sanitize_filename (dict_get (title v) (lit ''video'')) @ lit ''.mp4''))
                (succeeding env (downloads s) selected) \<and>
            zip_filename s' = Some (lit ''tiktok_download_'' @ uid @ lit ''.zip'')"
    if "prepare_zip env selected uid s = Inr s' \<and> zip_bytes s' = Some a" for s' a
  proof -
    from that have p: "prepare_zip env selected uid s = Inr s'" and z: "zip_bytes s' = Some a"
      by simp_all
    from z show ?thesis
      unfolding p[unfolded prepare_zip_Inr_iff[OF assms], THEN conjunct2, THEN conjunct2]
      using map_fst_archived[of env "downloads s" selected]
      by (auto simp: final_filename_def)
  qed
  ultimately show ?thesis by blast
qed

theorem prepare_zip_entry_names_witness:
  "[video_a, video_b] \<noteq> [] \<and>
   title video_a \<noteq> PyNone \<and> title video_b \<noteq> PyNone \<and>
   within_limits demo_env (fetched_files demo_env (downloads demo_state) [video_a, video_b]) \<and>
   \<not> isl (prepare_zip demo_env [video_a, video_b] (lit ''jane'') demo_state) \<and>
   map fst (entries (the (zip_bytes (projr (prepare_zip demo_env [video_a, video_b] (lit ''jane'') demo_state)))))
     = [lit ''Jane_Doe_My_Cool_Video.mp4''] \<and>
   zip_filename (projr (prepare_zip demo_env [video_a, video_b] (lit ''jane'') demo_state))
     = Some (lit ''tiktok_download_jane.zip'')"
proof -
  have ne: "[video_a, video_b] \<noteq> []" by simp
  have d0: "downloads demo_state = 0" by (simp add: demo_state_def)
  note t = prepare_zip_entry_names[OF ne, of demo_env demo_state "lit ''jane''", unfolded d0]
  from t demo_wf demo_within obtain s' where
    p: "prepare_zip demo_env [video_a, video_b] (lit ''jane'') demo_state = Inr s'"
    by blast
  have s': "s' = projr (prepare_zip demo_env [video_a, video_b] (lit ''jane'') demo_state)"
    by (simp add: p)
  obtain a where a: "zip_bytes s' = Some a"
    unfolding s' by (simp add: demo_prepare)
  from t p a have n: "zip_filename s' = Some (lit ''tiktok_download_'' @ lit ''jane'' @ lit ''.zip'')"
    by blast
  have e: "map fst (entries (the (zip_bytes s'))) = [lit ''Jane_Doe_My_Cool_Video.mp4'']"
    unfolding s' demo_prepare by simp
  show ?thesis
    using demo_wf demo_within n e
    unfolding p by (simp add: d0 lit_def)
qed

text \<open>
  Two facts about the run as a whole. A selection whose first descriptor has a title that
  holds \<open>None\<close> ends with TypeError. And when no fetch of a non-empty selection succeeds,
  the test on the buffer position still holds, since the closed archive is never shorter
  than its end record.
\<close>

lemma prepare_zip_title_none:
  assumes "title v = PyNone"
  shows "prepare_zip env (v # vs) uid s = Inl TypeError"
  by (simp add: prepare_zip_def zip_loop_title_none[OF assms] zip_close_def
        ZIP_FILECOUNT_LIMIT_def ZIP64_LIMIT_def del: zip_loop.simps)

lemma prepare_zip_all_failed:
  assumes "selected \<noteq> []" and "\<forall>v\<in>set selected. title v \<noteq> PyNone"
    and "succeeding env (downloads s) selected = []"
  shows "prepare_zip env selected uid s =
     Inr (s\<lparr>failed_videos := selected, downloads := downloads s + length selected,
            zip_bytes := Some \<lparr>entries = [], nbytes = end_record_size\<rparr>,
            zipped_selection_ids := [],
            zip_filename := Some (lit ''tiktok_download_'' @ uid @ lit ''.zip'')\<rparr>)"
proof -
  have "map fst (fetched_files env (downloads s) selected) = []"
    using assms(3) by (simp add: map_fst_fetched_files)
  then have ff: "fetched_files env (downloads s) selected = []" by simp
  have a: "archived env (downloads s) selected = []"
    by (simp add: archived_def ff)
  show ?thesis
    unfolding prepare_zip_Inr_iff[OF assms(1)] all_failing[OF assms(3)] a ff
    using assms(2) by (simp add: within_limits_def local_size_def directory_size_def)
qed

text \<open>
  Claim C4. The code at a selection whose only fetch fails: the ledger holds the
  descriptor, but the buffer position is 22, not 0, so the branch that stores an archive
  is taken: an archive without entries is stored, and it is true in Python's sense, so the
  download button is drawn.
\<close>

theorem prepare_zip_all_failed_keeps_archive:
  "prepare_zip demo_env [video_b] (lit ''jane'') demo_state =
     Inr (demo_state\<lparr>failed_videos := [video_b], downloads := 1,
            zip_bytes := Some \<lparr>entries = [], nbytes = 22\<rparr>,
            zipped_selection_ids := [],
            zip_filename := Some (lit ''tiktok_download_jane.zip'')\<rparr>) \<and>
   truthy_zip (Some \<lparr>entries = [], nbytes = 22\<rparr>)"
proof -
  have wf: "\<forall>v\<in>set [video_b]. title v \<noteq> PyNone" by (simp add: video_b_def)
  have d: "downloads demo_state = 0" by (simp add: demo_state_def)
  have f: "failing demo_env 0 [video_b] = [video_b]" and a: "archived demo_env 0 [video_b] = []"
    and ff: "fetched_files demo_env 0 [video_b] = []"
    by (simp_all add: demo_simps)
  have ne: "[video_b] \<noteq> []" by simp
  show ?thesis
    unfolding prepare_zip_Inr_iff[OF ne] d f a ff
    using wf
    by (simp add: within_limits_def local_size_def directory_size_def end_record_size_def
          truthy_zip_def lit_def)
qed

section \<open>The cache, selection changes and the page\<close>

lemma get_cached_stored:
  assumes "download_cache s d = Some r"
  shows "get_cached_download_data env d s = (r, s)"
  using assms by (simp add: get_cached_download_data_def)

lemma get_cached_stores:
  assumes "get_cached_download_data env d s = (r, s1)"
  shows "download_cache s1 d = Some r"
  using assms
  by (auto simp: get_cached_download_data_def Let_def split: option.splits prod.splits)

lemma get_cached_counter:
  assumes "get_cached_download_data env d s = (r, s1)"
  shows "downloads s \<le> downloads s1 \<and> downloads s1 \<le> downloads s + 1"
  using assms robust_download_counter[of env "downloads s" d]
  by (auto simp: get_cached_download_data_def Let_def split: option.splits prod.splits)

lemma get_cached_keeps:
  assumes "download_cache s d = Some r"
  shows "download_cache (snd (get_cached_download_data env w s)) d = Some r"
  using assms
  by (auto simp: get_cached_download_data_def Let_def split: option.splits prod.splits)

lemma prefetch_keeps:
  assumes "download_cache s d = Some r"
  shows "download_cache (prefetch env ws s) d = Some r"
  using assms
proof (induction ws arbitrary: s)
  case Nil
  then show ?case by simp
next
  case (Cons w ws)
  show ?case
    using Cons.IH[OF get_cached_keeps[OF Cons.prems]] by simp
qed

text \<open>
  Claim C6. After a call of \<open>get_cached_download_data\<close> for a descriptor, which makes at
  most one call of the download, a second call for the same descriptor, at once or after
  calls for any other descriptors, with no clearing of the cache between, returns the
  same result and leaves the state as it is: the download is not called again.
\<close>

theorem get_cached_download_data_memo:
  assumes "get_cached_download_data env d s = (r1, s1)"
  shows "downloads s1 \<le> downloads s + 1 \<and>
         get_cached_download_data env d s1 = (r1, s1) \<and>
         get_cached_download_data env d (prefetch env ws s1) = (r1, prefetch env ws s1)"
proof -
  have st: "download_cache s1 d = Some r1"
    using assms by (rule get_cached_stores)
  show ?thesis
    using get_cached_counter[OF assms] get_cached_stored[OF st]
      get_cached_stored[OF prefetch_keeps[OF st]]
    by simp
qed

lemma demo_get_cached:
  "get_cached_download_data demo_env video_a demo_state =
     ((Some [1, 2, 3], Some (lit ''Jane_Doe_My_Cool_Video.mp4'')),
      demo_state\<lparr>download_cache := (download_cache demo_state)
                    (video_a \<mapsto> (Some [1, 2, 3], Some (lit ''Jane_Doe_My_Cool_Video.mp4''))),
                 downloads := 1\<rparr>)"
  by (simp add: get_cached_download_data_def demo_state_def demo_simps)

theorem get_cached_download_data_memo_witness:
  "fst (get_cached_download_data demo_env video_a demo_state) =
     (Some [1, 2, 3], Some (lit ''Jane_Doe_My_Cool_Video.mp4'')) \<and>
   downloads (snd (get_cached_download_data demo_env video_a demo_state)) = 1 \<and>
   get_cached_download_data demo_env video_a (snd (get_cached_download_data demo_env video_a demo_state)) =
     get_cached_download_data demo_env video_a demo_state"
  using get_cached_download_data_memo[OF demo_get_cached, of "[]"]
  by (simp add: demo_get_cached)

text \<open>
  Claim C7. Select-all and deselect-all (the callback alone, or with the checkbox's own
  write), a single toggle followed by the check of the next run, and \<open>invalidate_zip\<close>
  change, besides the selection itself, only the archive bytes and the recorded ids: the
  video list, the ledger, the cache, the call counter, the archive name and the user id
  stay. The cache is emptied by the clear action, which changes nothing else.
\<close>

theorem selection_change_frame:
  "(let s' = toggle_all_selection p s in
      video_list s' = video_list s \<and> failed_videos s' = failed_videos s \<and>
      download_cache s' = download_cache s \<and> downloads s' = downloads s \<and>
      zip_filename s' = zip_filename s \<and> user_id s' = user_id s \<and>
      zip_bytes s' = None \<and> zipped_selection_ids s' = []) \<and>
   (let s' = user_select_all p b s in
      video_list s' = video_list s \<and> failed_videos s' = failed_videos s \<and>
      download_cache s' = download_cache s \<and> downloads s' = downloads s \<and>
      zip_filename s' = zip_filename s \<and> user_id s' = user_id s \<and>
      zip_bytes s' = None \<and> zipped_selection_ids s' = []) \<and>
   (let s' = check_zip_selection (user_toggle k s) in
      video_list s' = video_list s \<and> failed_videos s' = failed_videos s \<and>
      download_cache s' = download_cache s \<and> downloads s' = downloads s \<and>
      zip_filename s' = zip_filename s \<and> user_id s' = user_id s \<and>
      (zip_bytes s' = zip_bytes s \<and> zipped_selection_ids s' = zipped_selection_ids s \<or>
       zip_bytes s' = None \<and> zipped_selection_ids s' = [])) \<and>
   (let s' = invalidate_zip s in
      s' = s\<lparr>zip_bytes := None, zipped_selection_ids := []\<rparr>) \<and>
   (let s' = clear_download_cache s in
      download_cache s' = (\<lambda>v. None) \<and> s' = s\<lparr>download_cache := download_cache s'\<rparr>)"
  by (cases p)
     (simp_all add: toggle_all_selection_def user_select_all_def check_zip_selection_def
        user_toggle_def invalidate_zip_def clear_download_cache_def Let_def)

theorem selection_change_frame_witness:
  "failed_videos (toggle_all_selection Top demo_zipped) = [video_b] \<and>
   zip_bytes (toggle_all_selection Top demo_zipped) = None \<and>
   zip_bytes (check_zip_selection (user_toggle (lit ''2'') demo_zipped)) = None \<and>
   failed_videos (check_zip_selection (user_toggle (lit ''2'') demo_zipped)) = [video_b] \<and>
   download_cache (check_zip_selection (user_toggle (lit ''2'') demo_zipped)) = download_cache demo_zipped"
proof -
  have "zip_bytes (check_zip_selection (user_toggle (lit ''2'') demo_zipped)) = None"
    by (simp add: check_zip_selection_def user_toggle_def demo_zipped_def demo_state_def
          truthy_zip_def selected_ids_def is_selected_def invalidate_zip_def video_a_def
          video_b_def lit_def)
  moreover have "failed_videos demo_zipped = [video_b]"
    by (simp add: demo_zipped_def)
  ultimately show ?thesis
    using selection_change_frame[of Top demo_zipped True "lit ''2''"]
    by (simp add: Let_def)
qed


























end
